theory Spec2Isabelle
  imports Complex_Main "HOL-Library.List_Lexorder" "HOL-Library.Char_ord"
begin

section \<open>The claims table\<close>

text \<open>
  \<^verbatim>\<open>run_analysis.py\<close> is a straight-line script over the table
  \<^verbatim>\<open>claims = pd.read_csv(...)\<close>. A row of that table has the five columns the
  script reads. A numeric cell is a finite number or missing; pandas stores a missing
  cell as NaN, written \<open>None\<close> here. Infinite cells are not modelled.
\<close>

record claim_row =
  ClaimAmount :: "real option"
  Age :: "real option"
  IsSmoker :: "real option"
  Denied :: "real option"
  Department :: string

type_synonym claims = "claim_row list"

text \<open>
  Example rows: a row given by its amount, its smoker flag and its department, and a
  table of which only the \<^verbatim>\<open>ClaimAmount\<close> column matters.
\<close>

definition claim :: "real option \<Rightarrow> real option \<Rightarrow> string \<Rightarrow> claim_row" where
  "claim a s d = \<lparr>ClaimAmount = a, Age = Some 40, IsSmoker = s, Denied = Some 0, Department = d\<rparr>"

definition amount_row :: "real option \<Rightarrow> claim_row" where
  "amount_row a = claim a (Some 0) ''A''"

definition amounts_table :: "real option list \<Rightarrow> claims" where
  "amounts_table xs = map amount_row xs"

text \<open>The present values of a column (\<^verbatim>\<open>dropna()\<close>).\<close>

definition dropna :: "'a option list \<Rightarrow> 'a list" where
  "dropna xs = concat (map (\<lambda>a. case a of None \<Rightarrow> [] | Some v \<Rightarrow> [v]) xs)"

section \<open>Binary64 arithmetic\<close>

text \<open>
  Steps 7 and 8 of the script (expected value, empirical probability) perform a handful
  of float64 operations on literals and counts, and their rounding is modelled: each
  IEEE operation is the exact result rounded to the nearest binary64 number, ties to
  even: \<open>rd\<close>. A finite binary64 number is a rational \<open>m * 2 ^ (e - 52)\<close> with
  \<open>2 ^ 52 \<le> m < 2 ^ 53\<close>; \<open>expo a\<close> is the \<open>e\<close> with \<open>2 ^ e \<le> a < 2 ^ (e + 1)\<close>.
  Overflow and subnormal numbers are outside those computations and are not modelled.
  Steps 2, 5 and 6 (frequency table, correlation, tests) are statistics over whole
  columns; there the arithmetic is modelled exactly, over the rationals and the reals.
\<close>

function bitlen :: "int \<Rightarrow> nat" where
  "bitlen n = (if n \<le> 0 then 0 else Suc (bitlen (n div 2)))"
  by pat_completeness auto
termination
  by (relation "measure nat") auto

declare bitlen.simps [simp del]

text \<open>Round half to even, the rounding of \<^verbatim>\<open>np.rint\<close> and of the IEEE default mode.\<close>

definition rint :: "rat \<Rightarrow> int" where
  "rint q = (let f = \<lfloor>q\<rfloor>; d = q - of_int f in
     if d < 1/2 then f else if 1/2 < d then f + 1 else if even f then f else f + 1)"

definition expo :: "rat \<Rightarrow> int" where
  "expo a = (let (n, d) = quotient_of a;
                 e0 = int (bitlen n) - int (bitlen d)
             in if a < 2 powi e0 then e0 - 1 else e0)"

definition rd :: "rat \<Rightarrow> rat" where
  "rd x = (if x = 0 then 0 else
     let a = \<bar>x\<bar>; u = 2 powi (expo a - 52) in sgn x * of_int (rint (a / u)) * u)"

text \<open>
  \<^verbatim>\<open>Series.sum()\<close> of a float column: the elements are added one after the other,
  each addition rounded.
\<close>

definition fsum :: "rat list \<Rightarrow> rat" where
  "fsum xs = foldl (\<lambda>s c. rd (s + c)) 0 xs"

subsection \<open>Fixed-point formatting\<close>

text \<open>
  \<^verbatim>\<open>f"{x:.2f}"\<close> prints the exact value of the float rounded half-even to the given
  number of decimals, and \<^verbatim>\<open>nan\<close> for NaN.
\<close>

definition digit :: "int \<Rightarrow> char" where
  "digit n = ''0123456789'' ! nat n"

function dec_digits :: "int \<Rightarrow> string" where
  "dec_digits n = (if n < 10 then [digit n] else dec_digits (n div 10) @ [digit (n mod 10)])"
  by pat_completeness auto
termination
  by (relation "measure nat") auto

declare dec_digits.simps [simp del]

definition zero_pad :: "nat \<Rightarrow> string \<Rightarrow> string" where
  "zero_pad w s = replicate (w - length s) (CHR ''0'') @ s"

definition fmt_f :: "nat \<Rightarrow> rat \<Rightarrow> string" where
  "fmt_f d x = (let r = rint (\<bar>x\<bar> * 10 ^ d) in
     (if x < 0 then ''-'' else '''') @ dec_digits (r div 10 ^ d) @
     (if d = 0 then '''' else ''.'' @ zero_pad d (dec_digits (r mod 10 ^ d))))"

definition fmt_float :: "nat \<Rightarrow> rat option \<Rightarrow> string" where
  "fmt_float d v = (case v of None \<Rightarrow> ''nan'' | Some x \<Rightarrow> fmt_f d x)"

section \<open>Step 2: frequency distribution\<close>

text \<open>
  \<^verbatim>\<open>
  bins = np.arange(0, claims["ClaimAmount"].max() + 401, 400)
  labels = [f"{int(bins[i])}-{int(bins[i+1]-1)}" for i in range(len(bins)-1)]
  cut = pd.cut(claims["ClaimAmount"], bins=bins, labels=labels, right=True,
               include_lowest=True)
  freq = cut.value_counts().sort_index()
  freq_df = pd.DataFrame({"Range": freq.index, "Frequency": freq.values})
  freq_df["Relative %"] = (freq_df["Frequency"]/freq_df["Frequency"].sum()*100).round(2)
  freq_df["Cumulative %"] = freq_df["Relative %"].cumsum().round(2)
  \<close>
  The arithmetic of this step is exact: amounts are real numbers, the percentages are
  rationals and \<^verbatim>\<open>round(2)\<close> rounds the exact value half-even at two decimals. The
  rounding error of the float64 operations themselves is not modelled here.
\<close>

datatype error = ValueError | IndexError | TypeError

text \<open>\<^verbatim>\<open>Series.max()\<close> skips NaN; it is NaN when no value is left.\<close>

definition series_max :: "real option list \<Rightarrow> real option" where
  "series_max xs = (case dropna xs of [] \<Rightarrow> None | v # vs \<Rightarrow> Some (fold max vs v))"

text \<open>
  \<^verbatim>\<open>np.arange(start, stop, step)\<close> has \<open>ceil((stop - start) / step)\<close> elements
  \<open>start + i * step\<close> (none when that number is not positive) and raises
  \<^verbatim>\<open>ValueError: arange: cannot compute length\<close> when the length is NaN.
\<close>

definition np_arange :: "real \<Rightarrow> real option \<Rightarrow> real \<Rightarrow> error + real list" where
  "np_arange start stop step =
     (case stop of
        None \<Rightarrow> Inl ValueError
      | Some s \<Rightarrow> Inr (map (\<lambda>i. start + real i * step) [0 ..< nat \<lceil>(s - start) / step\<rceil>]))"

definition bins :: "claims \<Rightarrow> error + real list" where
  "bins cl = np_arange 0 (map_option (\<lambda>m. m + 401) (series_max (map ClaimAmount cl))) 400"














text \<open>The running sums of a list, as the specification reads the cumulative column.\<close>

fun running_sums :: "rat \<Rightarrow> rat list \<Rightarrow> rat list" where
  "running_sums acc [] = []"
| "running_sums acc (x # xs) = (acc + x) # running_sums (acc + x) xs"

text \<open>The first multiple of 400 strictly greater than a number.\<close>

definition first_multiple_above :: "real \<Rightarrow> real" where
  "first_multiple_above m = 400 * (of_int \<lfloor>m / 400\<rfloor> + 1)"

section \<open>Step 5: correlation and covariance\<close>

text \<open>
  \<^verbatim>\<open>
  numeric = claims[["Age","ClaimAmount","IsSmoker","Denied"]].copy()
  corr = numeric.corr(); cov = numeric.cov()
  \<close>
  \<^verbatim>\<open>DataFrame.corr()\<close> is pandas' \<^verbatim>\<open>nancorr(mat, minp=1)\<close>. For every pair of
  columns \<open>yi \<le> xi\<close> it runs Welford's update over the rows in which both cells are
  present and writes the one result to both \<open>[xi, yi]\<close> and \<open>[yi, xi]\<close>:
  \<^verbatim>\<open>
  nobs += 1
  dx = vx - meanx;  dy = vy - meany
  meanx += 1. / nobs * dx;  meany += 1. / nobs * dy
  ssqdmx += (vx - meanx) * dx;  ssqdmy += (vy - meany) * dy
  covxy += (vx - meanx) * dy
  ...
  if nobs < minpv: result = NaN
  else:
      divisor = (nobs - 1.0) if cov else sqrt(ssqdmx * ssqdmy)
      if divisor != 0: result = covxy / divisor    # clipped to [-1, 1] unless cov
      else: result = NaN
  \<close>
  A matrix is the list of its rows; an entry is \<open>None\<close> for NaN.
\<close>

record welford =
  nobs :: nat
  meanx :: real
  meany :: real
  ssqdmx :: real
  ssqdmy :: real
  covxy :: real

definition welford_init :: welford where
  "welford_init = \<lparr>nobs = 0, meanx = 0, meany = 0, ssqdmx = 0, ssqdmy = 0, covxy = 0\<rparr>"

definition welford_step :: "welford \<Rightarrow> real \<times> real \<Rightarrow> welford" where
  "welford_step s p =
     (let vx = fst p; vy = snd p;
          n = nobs s + 1;
          dx = vx - meanx s; dy = vy - meany s;
          mx = meanx s + 1 / real n * dx;
          my = meany s + 1 / real n * dy
      in \<lparr>nobs = n, meanx = mx, meany = my,
           ssqdmx = ssqdmx s + (vx - mx) * dx,
           ssqdmy = ssqdmy s + (vy - my) * dy,
           covxy = covxy s + (vx - mx) * dy\<rparr>)"

text \<open>The rows in which both cells are present (\<^verbatim>\<open>mask[i, xi] and mask[i, yi]\<close>).\<close>

definition complete_pairs :: "real option list \<Rightarrow> real option list \<Rightarrow> (real \<times> real) list" where
  "complete_pairs xs ys =
     concat (map (\<lambda>(a, b). case a of None \<Rightarrow> []
                              | Some x \<Rightarrow> (case b of None \<Rightarrow> [] | Some y \<Rightarrow> [(x, y)]))
                 (zip xs ys))"

definition clip :: "real \<Rightarrow> real" where
  "clip v = (if 1 < v then 1 else if v < - 1 then - 1 else v)"

definition nancorr_entry :: "bool \<Rightarrow> real option list \<Rightarrow> real option list \<Rightarrow> real option" where
  "nancorr_entry cov xs ys =
     (let s = foldl welford_step welford_init (complete_pairs xs ys)
      in if nobs s < 1 then None
         else
           (let divisor = (if cov then real (nobs s) - 1 else sqrt (ssqdmx s * ssqdmy s))
            in if divisor \<noteq> 0
               then Some (if cov then covxy s / divisor else clip (covxy s / divisor))
               else None))"

definition nancorr :: "bool \<Rightarrow> real option list list \<Rightarrow> real option list list" where
  "nancorr cov mat =
     map (\<lambda>xi. map (\<lambda>yi. if yi \<le> xi then nancorr_entry cov (mat ! xi) (mat ! yi)
                           else nancorr_entry cov (mat ! yi) (mat ! xi))
                [0 ..< length mat])
         [0 ..< length mat]"

text \<open>
  \<^verbatim>\<open>DataFrame.cov()\<close> calls \<^verbatim>\<open>np.cov(mat.T, ddof=1)\<close> when no cell of the four
  columns is missing, and \<^verbatim>\<open>nancorr(mat, cov=True, minp=1)\<close> otherwise. \<^verbatim>\<open>np.cov\<close>
  subtracts each column's mean, multiplies the matrix with its transpose and scales by
  \<open>1 / (N - 1)\<close>; with fewer than two rows the scale is \<open>1 / 0\<close> and every entry NaN.
\<close>

definition mean :: "real list \<Rightarrow> real" where
  "mean xs = sum_list xs / real (length xs)"

definition np_cov_entry :: "real list \<Rightarrow> real list \<Rightarrow> real option" where
  "np_cov_entry xs ys =
     (if length xs \<le> 1 then None
      else Some (sum_list (map2 (\<lambda>x y. (x - mean xs) * (y - mean ys)) xs ys)
                 / (real (length xs) - 1)))"

definition np_cov :: "real list list \<Rightarrow> real option list list" where
  "np_cov mat = map (\<lambda>xs. map (\<lambda>ys. np_cov_entry xs ys) mat) mat"

definition numeric :: "claims \<Rightarrow> real option list list" where
  "numeric cl = [map Age cl, map ClaimAmount cl, map IsSmoker cl, map Denied cl]"


definition cov :: "claims \<Rightarrow> real option list list" where
  "cov cl =
     (if list_all (list_all (\<lambda>a. a \<noteq> None)) (numeric cl)
      then np_cov (map dropna (numeric cl))
      else nancorr True (numeric cl))"




section \<open>Step 6: hypothesis tests\<close>

text \<open>
  A test statistic is a float that may be NaN or infinite: scipy divides with
  \<^verbatim>\<open>np.errstate(divide='ignore', invalid='ignore')\<close>, so \<open>0 / 0\<close> is NaN and
  \<open>d / 0\<close> is an infinity with the sign of \<open>d\<close>.
\<close>

datatype fval = NaN | PosInf | NegInf | Num real

text \<open>
  A p-value is the tail of a distribution, evaluated by \<^verbatim>\<open>scipy.special\<close>. The
  numeric evaluation is not modelled: a p-value is recorded as NaN, as 0 (the tail at an
  infinite statistic), or as the tail it denotes. \<open>P_student df t\<close> stands for
  \<^verbatim>\<open>special.stdtr(df, -abs(t)) * 2\<close> and \<open>P_fisher dfbn dfwn f\<close> for
  \<^verbatim>\<open>special.fdtrc(dfbn, dfwn, f)\<close>.
\<close>

datatype pvalue = P_nan | P_zero | P_student real real | P_fisher nat nat real

definition fdiv :: "real \<Rightarrow> real \<Rightarrow> fval" where
  "fdiv d q = (if q \<noteq> 0 then Num (d / q)
               else if d = 0 then NaN else if 0 < d then PosInf else NegInf)"


subsection \<open>Welch t-test, smokers against non-smokers\<close>








subsection \<open>One-way ANOVA by department\<close>

text \<open>
  \<^verbatim>\<open>
  dept_names = sorted(claims["Department"].unique())
  groups = [claims.loc[claims["Department"]==d, "ClaimAmount"] for d in dept_names]
  f_stat, p_anova = stats.f_oneway(*groups)
  \<close>
\<close>

definition dept_names :: "claims \<Rightarrow> string list" where
  "dept_names cl = sort (remdups (map Department cl))"

definition groups :: "claims \<Rightarrow> real option list list" where
  "groups cl = map (\<lambda>d. map ClaimAmount (filter (\<lambda>r. Department r = d) cl)) (dept_names cl)"

text \<open>
  \<^verbatim>\<open>stats.f_oneway(*samples)\<close>:
  \<^verbatim>\<open>
  if len(samples) < 2:
      raise TypeError('at least two inputs are required; got ...')
  if any(len(sample) == 0 ...): return NaN, NaN
  if all(len(sample) == 1 ...): return NaN, NaN
  offset = alldata.mean(); alldata = alldata - offset
  normalized_ss = _square_of_sums(alldata) / bign
  sstot = _sum_of_squares(alldata) - normalized_ss
  ssbn = sum(_square_of_sums(sample - offset) / len(sample)) - normalized_ss
  sswn = sstot - ssbn
  dfbn = num_groups - 1; dfwn = bign - num_groups
  f = (ssbn / dfbn) / (sswn / dfwn)
  prob = special.fdtrc(dfbn, dfwn, f)
  if all_same_const: f = nan; prob = nan
  elif all_const: f = inf; prob = 0.0
  \<close>
  A NaN among the observations makes the sums NaN and with them the result.
\<close>

definition is_const :: "real list \<Rightarrow> bool" where
  "is_const xs = list_all (\<lambda>x. x = hd xs) xs"

definition f_oneway :: "real option list list \<Rightarrow> error + fval \<times> pvalue" where
  "f_oneway samples =
     (if length samples < 2 then Inl TypeError
      else if list_ex (\<lambda>s. s = []) samples then Inr (NaN, P_nan)
      else if list_all (\<lambda>s. length s = 1) samples then Inr (NaN, P_nan)
      else if list_ex (\<lambda>s. None \<in> set s) samples then Inr (NaN, P_nan)
      else
        (let xss = map dropna samples;
             alldata = concat xss;
             bign = length alldata;
             offset = mean alldata;
             normalized_ss = (sum_list (map (\<lambda>x. x - offset) alldata))\<^sup>2 / real bign;
             sstot = sum_list (map (\<lambda>x. (x - offset)\<^sup>2) alldata) - normalized_ss;
             ssbn = sum_list (map (\<lambda>xs. (sum_list (map (\<lambda>x. x - offset) xs))\<^sup>2
                                          / real (length xs)) xss) - normalized_ss;
             sswn = sstot - ssbn;
             dfbn = length samples - 1;
             dfwn = bign - length samples;
             f = fdiv (ssbn / real dfbn) (sswn / real dfwn)
         in if is_const alldata then Inr (NaN, P_nan)
            else if list_all is_const xss then Inr (PosInf, P_zero)
            else Inr (f, case f of Num v \<Rightarrow> P_fisher dfbn dfwn v
                              | NaN \<Rightarrow> P_nan | _ \<Rightarrow> P_zero)))"

definition anova :: "claims \<Rightarrow> error + fval \<times> pvalue" where
  "anova cl = f_oneway (groups cl)"

section \<open>Step 7: expected value\<close>

text \<open>
  \<^verbatim>\<open>
  cats = pd.DataFrame({"Type":["Routine","Specialist","Emergency"],
                       "Prob":[0.62,0.28,0.10],"AvgCost":[1000,3000,10000]})
  cats["Contribution"] = cats["Prob"]*cats["AvgCost"]
  ev = cats["Contribution"].sum()
  f.write(f"Expected Claim Cost = {ev:.2f}\n")
  \<close>
  A float literal is the binary64 number nearest to the decimal written; the product of
  the float column and the integer column is one rounded multiplication per row.
\<close>

record cat_row =
  cat_Type :: string
  Prob :: rat
  AvgCost :: int

definition cats :: "cat_row list" where
  "cats = [\<lparr>cat_Type = ''Routine'', Prob = rd (62/100), AvgCost = 1000\<rparr>,
           \<lparr>cat_Type = ''Specialist'', Prob = rd (28/100), AvgCost = 3000\<rparr>,
           \<lparr>cat_Type = ''Emergency'', Prob = rd (10/100), AvgCost = 10000\<rparr>]"

definition Contribution :: "cat_row \<Rightarrow> rat" where
  "Contribution r = rd (Prob r * of_int (AvgCost r))"

definition ev :: rat where
  "ev = fsum (map Contribution cats)"

definition expected_value_result :: string where
  "expected_value_result = ''Expected Claim Cost = '' @ fmt_f 2 ev"

section \<open>Step 8: empirical probability\<close>

text \<open>
  \<^verbatim>\<open>
  p_gt_2500 = (claims["ClaimAmount"] > 2500).mean()
  f.write(f"P(ClaimAmount > 2500) ... {p_gt_2500:.4f}\n")
  \<close>
  The comparison yields a boolean column; a comparison with NaN is false. The mean of a
  boolean column is pandas' \<^verbatim>\<open>nanmean\<close>: the integer sum of the column divided by
  the number of its elements, and NaN when there is no element. The two counts are
  converted to float64 exactly (they are far below \<open>2 ^ 53\<close>); the division rounds.
\<close>

definition gt :: "real option \<Rightarrow> real \<Rightarrow> bool" where
  "gt a t = (case a of None \<Rightarrow> False | Some v \<Rightarrow> t < v)"

definition mean_bool :: "bool list \<Rightarrow> rat option" where
  "mean_bool bs =
     (let count = int (length bs);
          the_sum = sum_list (map (\<lambda>b. if b then 1 else 0) bs)
      in if 0 < count then Some (rd (of_int the_sum / of_int count)) else None)"

definition p_gt_2500 :: "claims \<Rightarrow> rat option" where
  "p_gt_2500 cl = mean_bool (map (\<lambda>r. gt (ClaimAmount r) 2500) cl)"

definition probability_demo :: "claims \<Rightarrow> string" where
  "probability_demo cl = fmt_float 4 (p_gt_2500 cl)"

text \<open>The counts the specification speaks of.\<close>

definition count_gt_2500 :: "claims \<Rightarrow> nat" where
  "count_gt_2500 cl =
     length (filter (\<lambda>r. case ClaimAmount r of None \<Rightarrow> False | Some v \<Rightarrow> 2500 < v) cl)"

definition present_amounts :: "claims \<Rightarrow> real list" where
  "present_amounts cl = dropna (map ClaimAmount cl)"

definition missing_rows :: "claims \<Rightarrow> claims" where
  "missing_rows cl = filter (\<lambda>r. ClaimAmount r = None) cl"

section \<open>Properties of the rounding\<close>

lemma bitlen_bounds: "0 < n \<Longrightarrow> 2 ^ (bitlen n - 1) \<le> n \<and> n < 2 ^ bitlen n"
proof (induction n rule: bitlen.induct)
  case (1 n)
  show ?case
  proof (cases "n = 1")
    case True
    then show ?thesis by (simp add: bitlen.simps)
  next
    case False
    with 1 have pos: "0 < n div 2" by simp
    have IH: "2 ^ (bitlen (n div 2) - 1) \<le> n div 2 \<and> n div 2 < 2 ^ bitlen (n div 2)"
      using 1 pos by simp
    have b: "bitlen n = Suc (bitlen (n div 2))" using 1(2) by (simp add: bitlen.simps)
    have bp: "0 < bitlen (n div 2)" using pos by (simp add: bitlen.simps)
    then obtain k where k: "bitlen (n div 2) = Suc k" by (cases "bitlen (n div 2)") auto
    from IH k have "2 ^ k \<le> n div 2" "n div 2 < 2 ^ Suc k" by simp_all
    then have "2 * 2 ^ k \<le> n" "n < 2 * 2 ^ Suc k" by linarith+
    then show ?thesis by (simp add: b k)
  qed
qed

lemma expo_bounds:
  assumes "0 < a"
  shows "2 powi expo a \<le> a \<and> a < 2 powi (expo a + 1)"
proof -
  obtain n d where q: "quotient_of a = (n, d)" by (cases "quotient_of a")
  have d: "0 < d" using quotient_of_denom_pos [OF q] .
  have a: "a = of_int n / of_int d" using quotient_of_div [OF q] .
  have n: "0 < n" using assms d by (simp add: a zero_less_divide_iff)
  define e0 where "e0 = int (bitlen n) - int (bitlen d)"
  have bn: "(2::rat) ^ (bitlen n - 1) \<le> of_int n" "of_int n < (2::rat) ^ bitlen n"
    using bitlen_bounds [OF n]
    by (metis of_int_le_iff of_int_numeral of_int_power,
        metis of_int_less_iff of_int_numeral of_int_power)
  have bd: "(2::rat) ^ (bitlen d - 1) \<le> of_int d" "of_int d < (2::rat) ^ bitlen d"
    using bitlen_bounds [OF d]
    by (metis of_int_le_iff of_int_numeral of_int_power,
        metis of_int_less_iff of_int_numeral of_int_power)
  have pn: "0 < bitlen n" using n by (simp add: bitlen.simps)
  have pd: "0 < bitlen d" using d by (simp add: bitlen.simps)
  have dpos: "(0::rat) < of_int d" using d by simp
  have up: "a < 2 powi (e0 + 1)"
  proof -
    have "a * of_int d < 2 ^ bitlen n" using bn(2) dpos by (simp add: a)
    moreover have "(2::rat) powi (e0 + 1) * 2 ^ (bitlen d - 1) = 2 ^ bitlen n"
    proof -
      have "e0 + 1 + int (bitlen d - 1) = int (bitlen n)" using pd by (simp add: e0_def)
      then have "(2::rat) powi (e0 + 1) * 2 powi int (bitlen d - 1) = 2 powi int (bitlen n)"
        by (metis power_int_add zero_neq_numeral)
      then show ?thesis by simp
    qed
    moreover have "(2::rat) powi (e0 + 1) * 2 ^ (bitlen d - 1) \<le> 2 powi (e0 + 1) * of_int d"
      using bd(1) by (simp add: mult_left_mono)
    ultimately have "a * of_int d < 2 powi (e0 + 1) * of_int d" by linarith
    then show ?thesis using dpos by simp
  qed
  have lo: "2 powi (e0 - 1) < a"
  proof -
    have "2 ^ (bitlen n - 1) \<le> a * of_int d" using bn(1) dpos by (simp add: a)
    moreover have "(2::rat) powi (e0 - 1) * 2 ^ bitlen d = 2 ^ (bitlen n - 1)"
    proof -
      have "e0 - 1 + int (bitlen d) = int (bitlen n - 1)" using pn by (simp add: e0_def)
      then have "(2::rat) powi (e0 - 1) * 2 powi int (bitlen d) = 2 powi int (bitlen n - 1)"
        by (metis power_int_add zero_neq_numeral)
      then show ?thesis by simp
    qed
    moreover have "(2::rat) powi (e0 - 1) * of_int d < 2 powi (e0 - 1) * 2 ^ bitlen d"
      using bd(2) by (simp add: mult_strict_left_mono)
    ultimately have "2 powi (e0 - 1) * of_int d < a * of_int d" by linarith
    then show ?thesis using dpos by simp
  qed
  have ex: "expo a = (if a < 2 powi e0 then e0 - 1 else e0)"
    by (simp add: expo_def q e0_def Let_def)
  show ?thesis
  proof (cases "a < 2 powi e0")
    case True
    then show ?thesis using lo by (simp add: ex)
  next
    case False
    then show ?thesis using up by (simp add: ex)
  qed
qed

lemma rint_le: "q \<le> of_int k \<Longrightarrow> rint q \<le> k"
  unfolding rint_def Let_def by (auto split: if_splits) linarith+

lemma rint_ge: "of_int k \<le> q \<Longrightarrow> k \<le> rint q"
  unfolding rint_def Let_def by (auto split: if_splits) linarith+

text \<open>A positive number rounds into the closed binade it lies in.\<close>

lemma rd_binade:
  assumes "0 < x"
  shows "2 powi expo x \<le> rd x \<and> rd x \<le> 2 powi (expo x + 1)"
proof -
  define e where "e = expo x"
  define u :: rat where "u = 2 powi (e - 52)"
  have u: "0 < u" by (simp add: u_def)
  have b: "2 powi e \<le> x" "x < 2 powi (e + 1)" using expo_bounds [OF assms] by (simp_all add: e_def)
  have lo_u: "2 powi e = 2 ^ 52 * u"
  proof -
    have "(2::rat) powi (52 + (e - 52)) = 2 powi 52 * 2 powi (e - 52)"
      by (rule power_int_add) simp
    then show ?thesis by (simp add: u_def)
  qed
  have hi_u: "2 powi (e + 1) = 2 ^ 53 * u"
  proof -
    have "(2::rat) powi (53 + (e - 52)) = 2 powi 53 * 2 powi (e - 52)"
      by (rule power_int_add) simp
    moreover have "53 + (e - 52) = e + 1" by simp
    ultimately show ?thesis by (simp add: u_def)
  qed
  have "of_int (2 ^ 52) \<le> x / u" using b(1) u by (simp add: lo_u pos_le_divide_eq)
  then have m_lo: "2 ^ 52 \<le> rint (x / u)" by (rule rint_ge)
  have "x / u \<le> of_int (2 ^ 53)" using b(2) u by (simp add: hi_u pos_divide_le_eq)
  then have m_hi: "rint (x / u) \<le> 2 ^ 53" by (rule rint_le)
  have r: "rd x = of_int (rint (x / u)) * u"
    using assms by (simp add: rd_def Let_def u_def e_def)
  have "(2::rat) ^ 52 \<le> of_int (rint (x / u))"
    using m_lo by (metis of_int_le_iff of_int_numeral of_int_power)
  then have "2 ^ 52 * u \<le> rd x" using u by (simp add: r)
  moreover have "of_int (rint (x / u)) \<le> (2::rat) ^ 53"
    using m_hi by (metis of_int_le_iff of_int_numeral of_int_power)
  then have "rd x \<le> 2 ^ 53 * u" using u by (simp add: r)
  ultimately have "2 powi e \<le> rd x \<and> rd x \<le> 2 powi (e + 1)"
    unfolding lo_u hi_u by simp
  then show ?thesis by (simp add: e_def)
qed

lemma rd_nonneg: "0 \<le> x \<Longrightarrow> 0 \<le> rd x"
proof (cases "x = 0")
  case True
  then show ?thesis by (simp add: rd_def)
next
  case False
  assume "0 \<le> x"
  with False have "0 < x" by simp
  from rd_binade [OF this] have "2 powi expo x \<le> rd x" by simp
  moreover have "(0::rat) < 2 powi expo x" by simp
  ultimately show ?thesis by linarith
qed

lemma rd_one: "rd 1 = 1"
  by code_simp

lemma rd_le_one:
  assumes "0 \<le> x" "x \<le> 1"
  shows "rd x \<le> 1"
proof (cases "x = 0 \<or> x = 1")
  case True
  then show ?thesis by (auto simp: rd_one) (simp add: rd_def)
next
  case False
  with assms have x: "0 < x" "x < 1" by simp_all
  have "2 powi expo x \<le> x" using expo_bounds [OF x(1)] by simp
  with x(2) have "(2::rat) powi expo x < 2 powi 0" by simp
  then have "expo x < 0"
    by (rule power_int_le_imp_less_exp [rotated]) simp_all
  then have "(2::rat) powi (expo x + 1) \<le> 2 powi 0"
    by (intro power_int_increasing) simp_all
  with rd_binade [OF x(1)] show ?thesis by simp
qed

lemma rint_error: "\<bar>of_int (rint q) - q\<bar> \<le> 1/2"
proof -
  have f: "of_int \<lfloor>q\<rfloor> \<le> q" "q < of_int \<lfloor>q\<rfloor> + 1" by linarith+
  consider "q - of_int \<lfloor>q\<rfloor> < 1/2" | "1/2 < q - of_int \<lfloor>q\<rfloor>" | "q - of_int \<lfloor>q\<rfloor> = 1/2"
    by linarith
  then show ?thesis
  proof cases
    case 1
    then have "rint q = \<lfloor>q\<rfloor>" by (simp add: rint_def Let_def)
    with 1 f show ?thesis by simp
  next
    case 2
    then have "rint q = \<lfloor>q\<rfloor> + 1" by (simp add: rint_def Let_def)
    with 2 f show ?thesis by simp
  next
    case 3
    then have "rint q = \<lfloor>q\<rfloor> \<or> rint q = \<lfloor>q\<rfloor> + 1" by (simp add: rint_def Let_def)
    with 3 f show ?thesis by auto
  qed
qed

text \<open>One rounding changes a positive number by at most the fraction \<open>2 ^ -53\<close> of it.\<close>

lemma rd_error:
  assumes "0 < x"
  shows "\<bar>rd x - x\<bar> \<le> x / 2 ^ 53"
proof -
  define u :: rat where "u = 2 powi (expo x - 52)"
  have u: "0 < u" by (simp add: u_def)
  have r: "rd x = of_int (rint (x / u)) * u"
    using assms by (simp add: rd_def Let_def u_def)
  have "rd x - x = (of_int (rint (x / u)) - x / u) * u"
    using u by (simp add: r field_simps)
  then have "\<bar>rd x - x\<bar> = \<bar>of_int (rint (x / u)) - x / u\<bar> * u"
    using u by (simp add: abs_mult)
  also have "\<dots> \<le> 1/2 * u"
    using rint_error [of "x / u"] u by (intro mult_right_mono) simp_all
  finally have e: "\<bar>rd x - x\<bar> \<le> u / 2" by simp
  have "(2::rat) powi (52 + (expo x - 52)) = 2 powi 52 * 2 powi (expo x - 52)"
    by (rule power_int_add) simp
  then have "2 ^ 52 * u = 2 powi expo x" by (simp add: u_def)
  also have "\<dots> \<le> x" using expo_bounds [OF assms] by simp
  finally have "u / 2 \<le> x / 2 ^ 53" by simp
  with e show ?thesis by linarith
qed

section \<open>The frequency distribution\<close>






lemma bins_None:
  assumes "series_max (map ClaimAmount cl) = None"
  shows "bins cl = Inl ValueError"
  using assms by (simp add: bins_def np_arange_def)







lemma first_multiple_above_least:
  assumes "m < 400 * of_int k"
  shows "first_multiple_above m \<le> 400 * of_int k"
proof -
  have "m / 400 < of_int k" using assms by simp
  then have "\<lfloor>m / 400\<rfloor> < k" by (simp add: floor_less_iff)
  then have "\<lfloor>m / 400\<rfloor> + 1 \<le> k" by simp
  then have "(of_int (\<lfloor>m / 400\<rfloor> + 1) :: real) \<le> of_int k" by (simp only: of_int_le_iff)
  then show ?thesis by (simp add: first_multiple_above_def)
qed






















lemma running_sums_length [simp]: "length (running_sums acc rs) = length rs"
  by (induction rs arbitrary: acc) simp_all

lemma running_sums_Nil_iff [simp]: "running_sums acc rs = [] \<longleftrightarrow> rs = []"
  by (cases rs) simp_all











section \<open>Correlation and covariance\<close>



































section \<open>The hypothesis tests\<close>















text \<open>Two departments with amounts 1 and 2, 4: the F statistic is 4/3 on (1, 1) degrees.\<close>

lemma anova_example:
  "anova [claim (Some 1) (Some 1) ''A'', claim (Some 2) (Some 0) ''B'',
          claim (Some 4) (Some 0) ''B''] = Inr (Num (4/3), P_fisher 1 1 (4/3))"
  by (simp add: anova_def f_oneway_def groups_def dept_names_def claim_def dropna_def
      mean_def is_const_def fdiv_def Let_def power2_eq_square)

section \<open>The expected value\<close>

lemma Contribution_values:
  "map Contribution cats = [620, 7388718138654721 / 8796093022208, 1000]"
  by code_simp

lemma ev_value: "ev = 2460"
  by code_simp

text \<open>
  Claim C2. The expected value is the sum of the three rows' contributions and is exactly
  2460, the value of 0.62 * 1000 + 0.28 * 3000 + 0.10 * 10000, printed \<^verbatim>\<open>2460.00\<close>;
  each row's contribution is the float product of its probability and its average cost
  (620, 840 + 2 ^ -43 and 1000, printed to two decimals as 620.00, 840.00 and 1000.00).
\<close>

theorem ev_is_sum_of_contributions:
  "ev = fsum (map (\<lambda>r. rd (Prob r * of_int (AvgCost r))) cats)
   \<and> ev = 62/100 * 1000 + 28/100 * 3000 + 10/100 * 10000
   \<and> ev = 2460
   \<and> expected_value_result = ''Expected Claim Cost = 2460.00''
   \<and> map AvgCost cats = [1000, 3000, 10000]
   \<and> map Prob cats = [rd (62/100), rd (28/100), rd (10/100)]
   \<and> map Contribution cats = map (\<lambda>r. rd (Prob r * of_int (AvgCost r))) cats
   \<and> map Contribution cats = [620, 840 + 1 / 2 ^ 43, 1000]
   \<and> map (fmt_f 2) (map Contribution cats) = [''620.00'', ''840.00'', ''1000.00'']"
proof (intro conjI)
  have c: "Contribution = (\<lambda>r. rd (Prob r * of_int (AvgCost r)))"
    by (rule ext) (simp add: Contribution_def)
  show "ev = fsum (map (\<lambda>r. rd (Prob r * of_int (AvgCost r))) cats)"
    by (simp add: ev_def c)
  show "ev = 62/100 * 1000 + 28/100 * 3000 + 10/100 * 10000"
    by (simp add: ev_value)
  show "ev = 2460" by (rule ev_value)
  show "expected_value_result = ''Expected Claim Cost = 2460.00''"
    unfolding expected_value_result_def ev_value by code_simp
  show "map AvgCost cats = [1000, 3000, 10000]" by (simp add: cats_def)
  show "map Prob cats = [rd (62/100), rd (28/100), rd (10/100)]" by (simp add: cats_def)
  show "map Contribution cats = map (\<lambda>r. rd (Prob r * of_int (AvgCost r))) cats"
    by (simp add: c)
  show "map Contribution cats = [620, 840 + 1 / 2 ^ 43, 1000]"
    by (simp add: Contribution_values)
  show "map (fmt_f 2) (map Contribution cats) = [''620.00'', ''840.00'', ''1000.00'']"
    unfolding Contribution_values by code_simp
qed

text \<open>
  The sum does not depend on the order of the two additions: numpy's reduction adds the
  first element to the sum of the rest, and the result is the same float.
\<close>

lemma ev_other_association:
  "rd (Contribution (cats ! 0) + rd (Contribution (cats ! 1) + Contribution (cats ! 2))) = ev"
  by code_simp

section \<open>The empirical probability\<close>

lemma sum_indicator:
  "sum_list (map (\<lambda>x. if P x then 1 else 0) xs) = int (length (filter P xs))"
  by (induction xs) auto

lemma p_gt_2500_count:
  "p_gt_2500 cl =
     (if cl = [] then None
      else Some (rd (of_nat (count_gt_2500 cl) / of_nat (length cl))))"
  by (simp add: p_gt_2500_def mean_bool_def Let_def count_gt_2500_def gt_def o_def
      sum_indicator)

lemma count_gt_2500_le: "count_gt_2500 cl \<le> length cl"
  by (simp add: count_gt_2500_def)

lemma rd_fraction_unit:
  assumes "k \<le> n" "0 < n"
  shows "0 \<le> rd (of_nat k / of_nat n) \<and> rd (of_nat k / of_nat n) \<le> 1"
  using assms by (intro conjI rd_nonneg rd_le_one) (simp_all add: divide_le_eq)

lemma rd_fraction_error:
  assumes "k \<le> n" "0 < n"
  shows "\<bar>rd (of_nat k / of_nat n) - of_nat k / of_nat n\<bar> \<le> 1 / 2 ^ 53"
proof (cases "k = 0")
  case True
  then show ?thesis by (simp add: rd_def)
next
  case False
  define x :: rat where "x = of_nat k / of_nat n"
  have x: "0 < x" "x \<le> 1" using assms False by (simp_all add: x_def divide_le_eq)
  have "\<bar>rd x - x\<bar> \<le> x / 2 ^ 53" using rd_error [OF x(1)] .
  also have "\<dots> \<le> 1 / 2 ^ 53" using x(2) by (simp add: divide_right_mono)
  finally show ?thesis by (simp add: x_def)
qed

text \<open>
  Claim C1. For every claims table the empirical probability is the number of rows with
  \<^verbatim>\<open>ClaimAmount > 2500\<close> divided (in float64, one rounding of at most \<open>2 ^ -53\<close>) by
  the number of all rows; it lies in \<open>[0, 1]\<close>; it is NaN, printed \<^verbatim>\<open>nan\<close>, exactly
  when the table has no row; and on the amounts 100, 500, 900, 2600, 5000 it is the
  float nearest to 2/5, printed \<^verbatim>\<open>0.4000\<close>.
\<close>

theorem p_gt_2500_is_count_ratio:
  "p_gt_2500 cl =
     (if cl = [] then None
      else Some (rd (of_nat (count_gt_2500 cl) / of_nat (length cl))))
   \<and> (case p_gt_2500 cl of
        None \<Rightarrow> cl = []
      | Some p \<Rightarrow> cl \<noteq> [] \<and> 0 \<le> p \<and> p \<le> 1
          \<and> \<bar>p - of_nat (count_gt_2500 cl) / of_nat (length cl)\<bar> \<le> 1 / 2 ^ 53)
   \<and> p_gt_2500 (amounts_table [Some 100, Some 500, Some 900, Some 2600, Some 5000])
        = Some (rd (2/5))
   \<and> probability_demo (amounts_table [Some 100, Some 500, Some 900, Some 2600, Some 5000])
        = ''0.4000''
   \<and> probability_demo [] = ''nan''"
proof (intro conjI)
  show "p_gt_2500 cl =
     (if cl = [] then None
      else Some (rd (of_nat (count_gt_2500 cl) / of_nat (length cl))))"
    by (rule p_gt_2500_count)
  show "case p_gt_2500 cl of
        None \<Rightarrow> cl = []
      | Some p \<Rightarrow> cl \<noteq> [] \<and> 0 \<le> p \<and> p \<le> 1
          \<and> \<bar>p - of_nat (count_gt_2500 cl) / of_nat (length cl)\<bar> \<le> 1 / 2 ^ 53"
  proof (cases "cl = []")
    case True
    then show ?thesis by (simp add: p_gt_2500_count)
  next
    case False
    then have n: "0 < length cl" by simp
    show ?thesis
      using False rd_fraction_unit [OF count_gt_2500_le n]
        rd_fraction_error [OF count_gt_2500_le n]
      by (simp add: p_gt_2500_count)
  qed
  show "p_gt_2500 (amounts_table [Some 100, Some 500, Some 900, Some 2600, Some 5000])
        = Some (rd (2/5))"
    by code_simp
  show "probability_demo (amounts_table [Some 100, Some 500, Some 900, Some 2600, Some 5000])
        = ''0.4000''"
    by code_simp
  show "probability_demo [] = ''nan''"
    by code_simp
qed

theorem p_gt_2500_is_count_ratio_witness:
  "p_gt_2500 (amounts_table [Some 3000, Some 10, None]) = Some (rd (1/3))
   \<and> 0 \<le> rd (1/3) \<and> rd (1/3) \<le> 1"
proof -
  define T where "T = amounts_table [Some 3000, Some 10, None]"
  have c: "count_gt_2500 T = 1"
    by (simp add: T_def count_gt_2500_def amounts_table_def amount_row_def claim_def)
  have l: "length T = 3" "T \<noteq> []"
    by (simp_all add: T_def amounts_table_def)
  from p_gt_2500_is_count_ratio [of T]
  have 1: "p_gt_2500 T =
     (if T = [] then None else Some (rd (of_nat (count_gt_2500 T) / of_nat (length T))))"
    and 2: "case p_gt_2500 T of
        None \<Rightarrow> T = []
      | Some p \<Rightarrow> T \<noteq> [] \<and> 0 \<le> p \<and> p \<le> 1
          \<and> \<bar>p - of_nat (count_gt_2500 T) / of_nat (length T)\<bar> \<le> 1 / 2 ^ 53"
    by blast+
  from 1 have p: "p_gt_2500 T = Some (rd (1/3))" by (simp add: c l)
  from 2 have "0 \<le> rd (1/3) \<and> rd (1/3) \<le> 1" by (simp add: p)
  with p show ?thesis by (simp add: T_def)
qed

lemma count_gt_2500_present:
  "count_gt_2500 cl = length (filter (\<lambda>v. 2500 < v) (present_amounts cl))"
  by (induction cl) (auto simp: count_gt_2500_def present_amounts_def dropna_def split: option.splits)

lemma length_present_missing:
  "length (present_amounts cl) + length (missing_rows cl) = length cl"
  by (induction cl) (auto simp: present_amounts_def dropna_def missing_rows_def split: option.splits)

text \<open>
  Claim C10. A row whose \<^verbatim>\<open>ClaimAmount\<close> is missing compares false with 2500 and
  still counts as a row: for every table with at least one row the probability is the
  number of present amounts above 2500 divided by the number of present plus the number
  of missing rows.
\<close>

theorem p_gt_2500_missing_rows:
  "\<not> gt None 2500
   \<and> (cl \<noteq> [] \<longrightarrow>
        p_gt_2500 cl =
          Some (rd (of_nat (length (filter (\<lambda>v. 2500 < v) (present_amounts cl)))
                    / of_nat (length (present_amounts cl) + length (missing_rows cl)))))"
  by (simp add: gt_def p_gt_2500_count count_gt_2500_present length_present_missing)

theorem p_gt_2500_missing_rows_witness:
  "amounts_table [Some 2600, None, None, Some 5000] \<noteq> []
   \<and> p_gt_2500 (amounts_table [Some 2600, None, None, Some 5000]) = Some (1/2)"
proof -
  have ne: "amounts_table [Some 2600, None, None, Some 5000] \<noteq> []"
    by (simp add: amounts_table_def)
  have pr: "present_amounts (amounts_table [Some 2600, None, None, Some 5000]) = [2600, 5000]"
    by (simp add: present_amounts_def dropna_def amounts_table_def amount_row_def claim_def)
  have mi: "length (missing_rows (amounts_table [Some 2600, None, None, Some 5000])) = 2"
    by (simp add: missing_rows_def amounts_table_def amount_row_def claim_def)
  have h: "rd (1/2) = 1/2" by code_simp
  show ?thesis
    using p_gt_2500_missing_rows [of "amounts_table [Some 2600, None, None, Some 5000]"] ne
    by (simp add: pr mi h)
qed

end
